theory Spec2Isabelle
  imports Main
begin

section \<open>Data model (src/frontend/src/lib/types.ts)\<close>

text \<open>
  \<^verbatim>\<open>Event\<close>, \<^verbatim>\<open>MonitorState\<close> and \<^verbatim>\<open>WebSocketMessage\<close> as records. A field typed
  \<^verbatim>\<open>T | null\<close> or marked optional (\<^verbatim>\<open>?\<close>) is an \<open>option\<close>. The \<^verbatim>\<open>metadata\<close> of an event is
  opaque to the store, so its type is a parameter. The fields of a message carry the prefix
  \<open>msg_\<close> because \<^verbatim>\<open>events\<close> and \<^verbatim>\<open>state\<close> are also fields of the store.
\<close>

record 'm event =
  timestamp :: string
  agent :: string
  action :: string
  workflow :: "string option"
  parent :: "string option"
  metadata :: 'm

record monitor_state =
  active_agent :: "string option"
  active_workflow :: "string option"
  started_at :: "string option"
  event_count :: int

record 'm ws_message =
  msg_type :: string
  msg_events :: "'m event list option"
  msg_state :: "monitor_state option"
  msg_event :: "'m event option"
  msg_message :: "string option"

section \<open>The store and its message handler (src/frontend/src/stores/monitorStore.ts)\<close>

record 'm monitor_store =
  events :: "'m event list"
  state :: monitor_state
  connected :: bool

text \<open>The object literal bound to \<^verbatim>\<open>initialState\<close>, as it is when the module is loaded.\<close>

definition initialState :: "'m monitor_store" where
  "initialState =
     \<lparr>events = [],
      state = \<lparr>active_agent = None, active_workflow = None, started_at = None,
               event_count = 0\<rparr>,
      connected = False\<rparr>"

text \<open>\<^verbatim>\<open>xs.slice(-n)\<close>: the last \<open>n\<close> elements, the whole array when it is shorter.\<close>

definition slice_last :: "nat \<Rightarrow> 'a list \<Rightarrow> 'a list" where
  "slice_last n xs = drop (length xs - n) xs"

text \<open>
  \<^verbatim>\<open>updateStateFromEvent(state, event)\<close>. Its only caller passes \<^verbatim>\<open>s.state\<close>, the state object
  of the store, so the model takes the store that holds this state. The last line of the
  function reads the module-level \<^verbatim>\<open>store\<close>, not its argument. The callback of
  \<^verbatim>\<open>produce\<close> (solid-js/store) receives a proxy whose writes go straight to the object
  under the store, so at that line \<^verbatim>\<open>store.events\<close> is the array as the caller has left it:
  the new event pushed and the truncation done.
\<close>

definition updateStateFromEvent :: "'m monitor_store \<Rightarrow> 'm event \<Rightarrow> 'm monitor_store" where
  "updateStateFromEvent s ev =
     (let s1 =
        (if action ev = ''start'' then
           s\<lparr>state := (state s)\<lparr>active_agent := Some (agent ev),
                                 active_workflow := workflow ev,
                                 started_at := Some (timestamp ev)\<rparr>\<rparr>
         else if action ev = ''end'' then
           (if active_agent (state s) = Some (agent ev) then
              s\<lparr>state := (state s)\<lparr>active_agent := None,
                                    active_workflow := None,
                                    started_at := None\<rparr>\<rparr>
            else s)
         else s)
      in s1\<lparr>state := (state s1)\<lparr>event_count := int (length (events s1)) + 1\<rparr>\<rparr>)"

text \<open>
  \<^verbatim>\<open>handleMessage(message)\<close>, as a function of the store. A message whose type is neither
  \<^verbatim>\<open>init\<close> nor \<^verbatim>\<open>event\<close>, or an \<^verbatim>\<open>event\<close> message without an event, falls through both
  branches.
\<close>

definition handleMessage :: "'m ws_message \<Rightarrow> 'm monitor_store \<Rightarrow> 'm monitor_store" where
  "handleMessage message s =
     (if msg_type message = ''init'' then
        (let s1 = s\<lparr>events := (case msg_events message of Some es \<Rightarrow> es | None \<Rightarrow> [])\<rparr>
         in case msg_state message of Some st \<Rightarrow> s1\<lparr>state := st\<rparr> | None \<Rightarrow> s1)
      else if msg_type message = ''event'' \<and> msg_event message \<noteq> None then
        (let ev = the (msg_event message);
             s1 = s\<lparr>events := events s @ [ev]\<rparr>;
             s2 = (if length (events s1) > 1000
                   then s1\<lparr>events := slice_last 1000 (events s1)\<rparr> else s1)
         in updateStateFromEvent s2 ev)
      else s)"

text \<open>The messages of a connection, handled in the order of their arrival.\<close>

definition handleMessages :: "'m ws_message list \<Rightarrow> 'm monitor_store \<Rightarrow> 'm monitor_store" where
  "handleMessages ms s = foldl (\<lambda>s' m. handleMessage m s') s ms"

text \<open>The envelope \<^verbatim>\<open>{ type: "event", event: e }\<close> and the snapshot
  \<^verbatim>\<open>{ type: "init", events: es }\<close>.\<close>

definition event_message :: "'m event \<Rightarrow> 'm ws_message" where
  "event_message e =
     \<lparr>msg_type = ''event'', msg_events = None, msg_state = None, msg_event = Some e,
      msg_message = None\<rparr>"

definition init_message :: "'m event list \<Rightarrow> 'm ws_message" where
  "init_message es =
     \<lparr>msg_type = ''init'', msg_events = Some es, msg_state = None, msg_event = None,
      msg_message = None\<rparr>"

text \<open>The events that a list of messages carries.\<close>

definition carried :: "'m ws_message list \<Rightarrow> 'm event list" where
  "carried ms = List.map_filter msg_event ms"

text \<open>A list of messages all of type \<^verbatim>\<open>event\<close>.\<close>

definition event_typed :: "'m ws_message list \<Rightarrow> bool" where
  "event_typed ms = list_all (\<lambda>m. msg_type m = ''event'') ms"

text \<open>
  Two readings of the session after a list of events, neither taken from the code.

  The first follows the words of the specification one by one: among the \<^verbatim>\<open>start\<close> events
  that no later \<^verbatim>\<open>end\<close> event of the same agent follows (\<open>unended_starts\<close>, in the order
  of arrival), the most recent one gives the active agent; there is none when no such event
  exists.
\<close>

fun unended_starts :: "'m event list \<Rightarrow> 'm event list" where
  "unended_starts [] = []"
| "unended_starts (e # es) =
     (if action e = ''start'' \<and> \<not> list_ex (\<lambda>e'. action e' = ''end'' \<and> agent e' = agent e) es
      then e # unended_starts es else unended_starts es)"

definition claimed_active :: "'m event list \<Rightarrow> string option" where
  "claimed_active es =
     (case unended_starts es of [] \<Rightarrow> None | x # xs \<Rightarrow> Some (agent (last (x # xs))))"

text \<open>
  The second looks at the most recent \<^verbatim>\<open>start\<close> event only: the active agent is its agent,
  unless an \<^verbatim>\<open>end\<close> event of the same agent comes after it, and then there is none, even
  if an earlier \<^verbatim>\<open>start\<close> of another agent was never ended. There is none either when no
  \<^verbatim>\<open>start\<close> event has been seen. \<open>last_start\<close> returns the most recent \<^verbatim>\<open>start\<close> event
  together with the events after it.
\<close>

fun last_start :: "'m event list \<Rightarrow> ('m event \<times> 'm event list) option" where
  "last_start [] = None"
| "last_start (e # es) =
     (case last_start es of
        Some r \<Rightarrow> Some r
      | None \<Rightarrow> if action e = ''start'' then Some (e, es) else None)"

definition expected_active :: "'m event list \<Rightarrow> string option" where
  "expected_active es =
     (case last_start es of
        None \<Rightarrow> None
      | Some (s, later) \<Rightarrow>
          if list_ex (\<lambda>e. action e = ''end'' \<and> agent e = agent s) later then None
          else Some (agent s))"

text \<open>An event in the format of the plan (src/plans), used where a concrete one is needed.\<close>

definition sample_event :: "string \<Rightarrow> string \<Rightarrow> unit event" where
  "sample_event a act =
     \<lparr>timestamp = ''2026-01-29T10:30:00Z'', agent = a, action = act,
      workflow = Some ''design-feature'', parent = None, metadata = ()\<rparr>"

section \<open>The module state: the store object, the signals, the reset\<close>

text \<open>
  The module keeps one object. \<^verbatim>\<open>const initialState = {...}\<close> binds it, and
  \<^verbatim>\<open>createStore(initialState)\<close> (solid-js/store) wraps the object it is given in a proxy:
  it makes no copy, so the store and \<^verbatim>\<open>initialState\<close> are two names of the same object.
  The model keeps the objects in a heap and the two names as addresses into it, so that the
  sharing is visible: \<open>createStore\<close> returns the address it receives.

  \<^verbatim>\<open>setStore(produce(f))\<close> runs \<open>f\<close> on the object under the store, in place.
  \<^verbatim>\<open>setStore(value)\<close> with an object merges it into the object under the store, key by
  key (\<^verbatim>\<open>mergeStoreNode\<close> of solid-js/store).
\<close>

type_synonym addr = nat

record 'm monitor_module =
  heap :: "'m monitor_store list"
  initialState_ref :: addr
  store_ref :: addr
  connected_signal :: bool
  duration :: string
  durationInterval :: bool

definition createStore :: "addr \<Rightarrow> addr" where
  "createStore a = a"

definition module_load :: "'m monitor_module" where
  "module_load =
     \<lparr>heap = [initialState], initialState_ref = 0, store_ref = createStore 0,
      connected_signal = False, duration = ''-'', durationInterval = False\<rparr>"

text \<open>Reading \<^verbatim>\<open>store\<close>.\<close>

definition store_of :: "'m monitor_module \<Rightarrow> 'm monitor_store" where
  "store_of g = heap g ! store_ref g"

definition setStore_produce ::
  "('m monitor_store \<Rightarrow> 'm monitor_store) \<Rightarrow> 'm monitor_module \<Rightarrow> 'm monitor_module" where
  "setStore_produce f g = g\<lparr>heap := (heap g)[store_ref g := f (heap g ! store_ref g)]\<rparr>"

definition mergeStoreNode :: "'m monitor_store \<Rightarrow> 'm monitor_store \<Rightarrow> 'm monitor_store" where
  "mergeStoreNode target v =
     target\<lparr>events := events v, state := state v, connected := connected v\<rparr>"

definition setStore_object :: "addr \<Rightarrow> 'm monitor_module \<Rightarrow> 'm monitor_module" where
  "setStore_object a g =
     g\<lparr>heap := (heap g)[store_ref g := mergeStoreNode (heap g ! store_ref g) (heap g ! a)]\<rparr>"

text \<open>\<^verbatim>\<open>handleMessage\<close> and \<^verbatim>\<open>handleConnection\<close> as the transport calls them, on the
  module state.\<close>

definition on_message :: "'m ws_message \<Rightarrow> 'm monitor_module \<Rightarrow> 'm monitor_module" where
  "on_message message g = setStore_produce (handleMessage message) g"

definition handleConnection :: "bool \<Rightarrow> 'm monitor_module \<Rightarrow> 'm monitor_module" where
  "handleConnection isConnected g =
     setStore_produce (\<lambda>s. s\<lparr>connected := isConnected\<rparr>) (g\<lparr>connected_signal := isConnected\<rparr>)"

text \<open>\<^verbatim>\<open>resetMonitor()\<close>: \<^verbatim>\<open>setStore(initialState); setDuration("-")\<close>.\<close>

definition resetMonitor :: "'m monitor_module \<Rightarrow> 'm monitor_module" where
  "resetMonitor g = (setStore_object (initialState_ref g) g)\<lparr>duration := ''-''\<rparr>"

section \<open>The duration ticker\<close>

text \<open>
  The conversion of an integer to its decimal digits that a template literal performs, and
  the remainder of JavaScript, which takes the sign of the dividend.
\<close>

definition digit_char :: "nat \<Rightarrow> char" where
  "digit_char d = ''0123456789'' ! d"

fun show_nat :: "nat \<Rightarrow> string" where
  "show_nat n = (if n < 10 then [digit_char n] else show_nat (n div 10) @ [digit_char (n mod 10)])"

definition show_int :: "int \<Rightarrow> string" where
  "show_int i = (if i < 0 then CHR ''-'' # show_nat (nat (- i)) else show_nat (nat i))"

definition js_rem :: "int \<Rightarrow> int \<Rightarrow> int" where
  "js_rem a b = sgn a * (\<bar>a\<bar> mod \<bar>b\<bar>)"

text \<open>
  The body of the interval callback of \<^verbatim>\<open>startDurationUpdater\<close>, from the difference
  \<^verbatim>\<open>diff\<close> in milliseconds on. Time values are integers; \<open>div\<close> on \<open>int\<close> rounds down, as
  \<^verbatim>\<open>Math.floor\<close> does.
\<close>

definition formatDuration :: "int \<Rightarrow> string" where
  "formatDuration diff =
     (let seconds = diff div 1000;
          minutes = seconds div 60;
          hours = minutes div 60
      in if hours > 0 then show_int hours @ ''h '' @ show_int (js_rem minutes 60) @ ''m''
         else if minutes > 0 then show_int minutes @ ''m '' @ show_int (js_rem seconds 60) @ ''s''
         else show_int seconds @ ''s'')"

text \<open>
  The text one tick computes. \<open>getTime\<close> stands for \<^verbatim>\<open>new Date(s).getTime()\<close>, with
  \<open>None\<close> for the \<^verbatim>\<open>NaN\<close> of a string that is no date; \<open>now\<close> is \<^verbatim>\<open>Date.now()\<close>. The
  test \<^verbatim>\<open>if (startedAt)\<close> fails on \<^verbatim>\<open>null\<close> and on the empty string. Every comparison
  with \<^verbatim>\<open>NaN\<close> is false, which leaves the last branch.
\<close>

definition durationText :: "(string \<Rightarrow> int option) \<Rightarrow> int \<Rightarrow> string option \<Rightarrow> string" where
  "durationText getTime now startedAt =
     (case startedAt of
        None \<Rightarrow> ''-''
      | Some ts \<Rightarrow>
          if ts = [] then ''-''
          else (case getTime ts of
                  None \<Rightarrow> ''NaNs''
                | Some t0 \<Rightarrow> formatDuration (now - t0)))"

definition tick :: "(string \<Rightarrow> int option) \<Rightarrow> int \<Rightarrow> 'm monitor_module \<Rightarrow> 'm monitor_module" where
  "tick getTime now g =
     g\<lparr>duration := durationText getTime now (started_at (state (store_of g)))\<rparr>"

definition startDurationUpdater :: "'m monitor_module \<Rightarrow> 'm monitor_module" where
  "startDurationUpdater g = (if durationInterval g then g else g\<lparr>durationInterval := True\<rparr>)"

definition stopDurationUpdater :: "'m monitor_module \<Rightarrow> 'm monitor_module" where
  "stopDurationUpdater g = (if durationInterval g then g\<lparr>durationInterval := False\<rparr> else g)"

section \<open>The transport (src/frontend/src/lib/websocket.ts)\<close>

text \<open>
  \<^verbatim>\<open>MonitorWebSocket\<close> with the part of the browser it talks to. The fields \<open>ws\<close>,
  \<open>reconnectTimeout\<close> and \<open>isManualClose\<close> are those of the class. The rest is the
  environment: the \<^verbatim>\<open>readyState\<close> of every socket created so far (a socket is its index),
  the timers that are set and have neither fired nor been cleared, and the id the next
  \<^verbatim>\<open>setTimeout\<close> returns (ids are positive and never reused). \<open>connect_calls\<close> counts
  the entries into \<^verbatim>\<open>connect()\<close> and \<open>connection_events\<close> records the arguments of
  \<^verbatim>\<open>notifyConnection\<close>; the subscribed handler of this repository (\<^verbatim>\<open>handleConnection\<close>
  of the store) does not call back into the transport.
\<close>

datatype ready_state = CONNECTING | OPEN | CLOSING | CLOSED

record transport =
  ws :: "nat option"
  reconnectTimeout :: "nat option"
  isManualClose :: bool
  sockets :: "ready_state list"
  pending_timers :: "nat list"
  next_timer_id :: nat
  connect_calls :: nat
  connection_events :: "bool list"

definition transport_init :: transport where
  "transport_init =
     \<lparr>ws = None, reconnectTimeout = None, isManualClose = False, sockets = [],
      pending_timers = [], next_timer_id = 1, connect_calls = 0, connection_events = []\<rparr>"

text \<open>The \<^verbatim>\<open>readyState\<close> of a socket that exists.\<close>

definition readyState :: "transport \<Rightarrow> nat \<Rightarrow> ready_state option" where
  "readyState t i = (if i < length (sockets t) then Some (sockets t ! i) else None)"

text \<open>\<^verbatim>\<open>connect()\<close>: nothing when the current socket is open; otherwise the flag is cleared and
  a new socket, with the four handlers, replaces the current one.\<close>

definition connect :: "transport \<Rightarrow> transport" where
  "connect t =
     (let t0 = t\<lparr>connect_calls := connect_calls t + 1\<rparr> in
      if (case ws t0 of Some i \<Rightarrow> readyState t0 i = Some OPEN | None \<Rightarrow> False) then t0
      else t0\<lparr>isManualClose := False,
              ws := Some (length (sockets t0)),
              sockets := sockets t0 @ [CONNECTING]\<rparr>)"

definition clearTimeout :: "nat \<Rightarrow> transport \<Rightarrow> transport" where
  "clearTimeout tid t = t\<lparr>pending_timers := removeAll tid (pending_timers t)\<rparr>"

text \<open>\<^verbatim>\<open>ws.close()\<close>: a socket that is connecting or open starts closing; its close event comes
  later, as a step of its own.\<close>

definition socket_close :: "nat \<Rightarrow> transport \<Rightarrow> transport" where
  "socket_close i t =
     (if readyState t i = Some CONNECTING \<or> readyState t i = Some OPEN
      then t\<lparr>sockets := (sockets t)[i := CLOSING]\<rparr> else t)"

text \<open>\<^verbatim>\<open>disconnect()\<close>. The test \<^verbatim>\<open>if (this.reconnectTimeout)\<close> fails on \<^verbatim>\<open>null\<close> and on an
  id that is zero.\<close>

definition disconnect :: "transport \<Rightarrow> transport" where
  "disconnect t =
     (let t1 = t\<lparr>isManualClose := True\<rparr>;
          t2 = (case reconnectTimeout t1 of
                  Some tid \<Rightarrow>
                    if tid \<noteq> 0 then (clearTimeout tid t1)\<lparr>reconnectTimeout := None\<rparr> else t1
                | None \<Rightarrow> t1)
      in case ws t2 of
           Some i \<Rightarrow> (socket_close i t2)\<lparr>ws := None\<rparr>
         | None \<Rightarrow> t2)"

definition scheduleReconnect :: "transport \<Rightarrow> transport" where
  "scheduleReconnect t =
     (let t1 = (case reconnectTimeout t of
                  Some tid \<Rightarrow> if tid \<noteq> 0 then clearTimeout tid t else t
                | None \<Rightarrow> t)
      in t1\<lparr>reconnectTimeout := Some (next_timer_id t1),
              pending_timers := pending_timers t1 @ [next_timer_id t1],
              next_timer_id := next_timer_id t1 + 1\<rparr>)"

definition notifyConnection :: "bool \<Rightarrow> transport \<Rightarrow> transport" where
  "notifyConnection c t = t\<lparr>connection_events := connection_events t @ [c]\<rparr>"

text \<open>The handlers \<^verbatim>\<open>onopen\<close> and \<^verbatim>\<open>onclose\<close> that \<^verbatim>\<open>connect()\<close> gives to every socket.\<close>

definition onopen :: "transport \<Rightarrow> transport" where
  "onopen t = notifyConnection True t"

definition onclose :: "transport \<Rightarrow> transport" where
  "onclose t =
     (let t1 = notifyConnection False t in
      if \<not> isManualClose t1 then scheduleReconnect t1 else t1)"

text \<open>
  What can happen to the transport: a call of \<^verbatim>\<open>connect()\<close> or \<^verbatim>\<open>disconnect()\<close> from outside, an
  event of a socket, or a pending timer firing, which runs the callback of
  \<^verbatim>\<open>scheduleReconnect\<close>, a call of \<^verbatim>\<open>connect()\<close>. \<open>step\<close> is \<open>None\<close> when the event cannot
  happen in the state: a socket opens only while connecting, closes once, and a timer
  fires only while pending. The handlers \<^verbatim>\<open>onerror\<close> and \<^verbatim>\<open>onmessage\<close> leave the fields of the
  transport as they are.
\<close>

datatype transport_event =
    Connect | Disconnect
  | SocketOpened nat | SocketClosed nat | SocketErrored nat | FrameReceived nat
  | TimerFired nat

fun step :: "transport_event \<Rightarrow> transport \<Rightarrow> transport option" where
  "step Connect t = Some (connect t)"
| "step Disconnect t = Some (disconnect t)"
| "step (SocketOpened i) t =
     (if readyState t i = Some CONNECTING
      then Some (onopen (t\<lparr>sockets := (sockets t)[i := OPEN]\<rparr>)) else None)"
| "step (SocketClosed i) t =
     (if i < length (sockets t) \<and> readyState t i \<noteq> Some CLOSED
      then Some (onclose (t\<lparr>sockets := (sockets t)[i := CLOSED]\<rparr>)) else None)"
| "step (SocketErrored i) t = (if i < length (sockets t) then Some t else None)"
| "step (FrameReceived i) t = (if readyState t i = Some OPEN then Some t else None)"
| "step (TimerFired tid) t =
     (if tid \<in> set (pending_timers t)
      then Some (connect (t\<lparr>pending_timers := removeAll tid (pending_timers t)\<rparr>))
      else None)"

fun run :: "transport_event list \<Rightarrow> transport \<Rightarrow> transport option" where
  "run [] t = Some t"
| "run (a # as) t = (case step a t of None \<Rightarrow> None | Some t' \<Rightarrow> run as t')"

text \<open>
  Two invariants. \<open>timer_held\<close>: every pending timer is the one that \<open>reconnectTimeout\<close>
  holds, and its id is not zero. \<open>suppressed\<close>: the flag is set and no timer is pending.
\<close>

definition timer_held :: "transport \<Rightarrow> bool" where
  "timer_held t \<longleftrightarrow>
     0 < next_timer_id t \<and>
     (\<forall>tid \<in> set (pending_timers t). tid \<noteq> 0 \<and> reconnectTimeout t = Some tid)"

definition suppressed :: "transport \<Rightarrow> bool" where
  "suppressed t \<longleftrightarrow> isManualClose t \<and> pending_timers t = []"

section \<open>Properties of the message handler\<close>

lemma handleMessages_Nil [simp]: "handleMessages [] s = s"
  by (simp add: handleMessages_def)

lemma handleMessages_snoc [simp]:
  "handleMessages (ms @ [m]) s = handleMessage m (handleMessages ms s)"
  by (simp add: handleMessages_def)

lemma handleMessages_Cons [simp]:
  "handleMessages (m # ms) s = handleMessages ms (handleMessage m s)"
  by (simp add: handleMessages_def)

lemma events_handle_event:
  "events (handleMessage (event_message e) s) = slice_last 1000 (events s @ [e])"
  by (simp add: handleMessage_def event_message_def updateStateFromEvent_def Let_def
      slice_last_def)

lemma event_count_handle_event:
  "event_count (state (handleMessage (event_message e) s)) =
     int (length (events (handleMessage (event_message e) s))) + 1"
  by (simp add: handleMessage_def event_message_def updateStateFromEvent_def Let_def)

lemma active_agent_handle_event:
  "active_agent (state (handleMessage (event_message e) s)) =
     (if action e = ''start'' then Some (agent e)
      else if action e = ''end'' \<and> active_agent (state s) = Some (agent e) then None
      else active_agent (state s))"
  by (simp add: handleMessage_def event_message_def updateStateFromEvent_def Let_def)

lemma handle_event_typed:
  "msg_type m = ''event'' \<Longrightarrow>
   handleMessage m s = (case msg_event m of None \<Rightarrow> s | Some e \<Rightarrow> handleMessage (event_message e) s)"
  by (simp add: handleMessage_def event_message_def split: option.splits)

lemma event_typed_iff: "event_typed ms \<longleftrightarrow> (\<forall>m\<in>set ms. msg_type m = ''event'')"
  by (simp add: event_typed_def list_all_iff)

lemma handleMessages_carried:
  "\<forall>m\<in>set ms. msg_type m = ''event'' \<Longrightarrow>
   handleMessages ms s = handleMessages (map event_message (carried ms)) s"
proof (induction ms arbitrary: s)
  case Nil
  show ?case by (simp add: carried_def)
next
  case (Cons m ms)
  then show ?case
    by (cases "msg_event m") (simp_all add: carried_def handle_event_typed)
qed

lemma carried_event_messages: "carried (map event_message es) = es"
  by (induction es) (simp_all add: carried_def event_message_def)

lemma event_typed_event_messages: "event_typed (map event_message es)"
  by (simp add: event_typed_def list_all_iff event_message_def)

lemma carried_snoc:
  "carried (ms @ [m]) = (case msg_event m of None \<Rightarrow> carried ms | Some e \<Rightarrow> carried ms @ [e])"
  by (simp add: carried_def map_filter_def split: option.splits)

lemma event_typed_append: "event_typed (ms @ ms') \<longleftrightarrow> event_typed ms \<and> event_typed ms'"
  by (simp add: event_typed_def)

lemma slice_last_snoc:
  "0 < n \<Longrightarrow> slice_last n (slice_last n xs @ [e]) = slice_last n (xs @ [e])"
  by (cases "length xs \<le> n") (simp_all add: slice_last_def Suc_diff_le)

lemma length_slice_last: "length (slice_last n xs) = min n (length xs)"
  by (simp add: slice_last_def)

lemma events_after_events:
  "es \<noteq> [] \<Longrightarrow>
   events (handleMessages (map event_message es) s) = slice_last 1000 (events s @ es)"
proof (induction es rule: rev_induct)
  case Nil
  then show ?case by simp
next
  case (snoc e es)
  show ?case
  proof (cases "es = []")
    case True
    then show ?thesis by (simp add: events_handle_event)
  next
    case False
    with snoc.IH show ?thesis
      by (simp add: events_handle_event slice_last_snoc)
  qed
qed

lemma event_count_after_events:
  "es \<noteq> [] \<Longrightarrow>
   event_count (state (handleMessages (map event_message es) s)) =
     int (min 1000 (length (events s) + length es)) + 1"
proof (induction es rule: rev_induct)
  case Nil
  then show ?case by simp
next
  case (snoc e es)
  show ?case
  proof (cases "es = []")
    case True
    then show ?thesis
      by (simp add: event_count_handle_event events_handle_event length_slice_last)
  next
    case False
    then show ?thesis
      by (simp add: event_count_handle_event events_handle_event length_slice_last
          events_after_events)
  qed
qed

lemma event_count_closed_form:
  assumes "event_typed ms"
  shows "event_count (state (handleMessages ms initialState)) =
           (if carried ms = [] then 0 else int (min 1000 (length (carried ms))) + 1)"
proof -
  from assms have eq: "handleMessages ms initialState =
      handleMessages (map event_message (carried ms)) (initialState :: 'a monitor_store)"
    by (simp add: handleMessages_carried event_typed_iff)
  show ?thesis
  proof (cases "carried ms = []")
    case True
    with eq show ?thesis by (simp add: initialState_def)
  next
    case False
    then have "event_count (state (handleMessages (map event_message (carried ms))
                 (initialState :: 'a monitor_store))) =
               int (min 1000 (length (events (initialState :: 'a monitor_store))
                 + length (carried ms))) + 1"
      by (rule event_count_after_events)
    with eq False show ?thesis by (simp add: initialState_def)
  qed
qed

lemma last_start_snoc:
  "last_start (es @ [e]) =
     (if action e = ''start'' then Some (e, [])
      else map_option (\<lambda>(s, later). (s, later @ [e])) (last_start es))"
  by (induction es) (auto split: option.splits)

lemma active_agent_after_events:
  "active_agent (state (handleMessages (map event_message es) initialState)) =
     expected_active es"
proof (induction es rule: rev_induct)
  case Nil
  show ?case by (simp add: expected_active_def initialState_def)
next
  case (snoc e es)
  then show ?case
    by (auto simp: active_agent_handle_event expected_active_def last_start_snoc
        split: option.splits if_splits)
qed

text \<open>
  Claim C1, as stated, fails. It gives the agent of the most recent \<^verbatim>\<open>start\<close> event that no
  \<^verbatim>\<open>end\<close> event of the same agent follows (\<open>claimed_active\<close>). After the architect starts,
  the coder starts and the coder ends, that event is the start of the architect; the store
  has no active agent, because the start of the coder replaced the architect and the end of
  the coder cleared the session.
\<close>

theorem active_agent_not_restored_counterexample:
  "active_agent (state (handleMessages (map event_message
      [sample_event ''architect'' ''start'', sample_event ''coder'' ''start'',
       sample_event ''coder'' ''end'']) initialState)) = None \<and>
   claimed_active
      [sample_event ''architect'' ''start'', sample_event ''coder'' ''start'',
       sample_event ''coder'' ''end''] = Some ''architect''"
  by (simp add: active_agent_handle_event claimed_active_def sample_event_def
      initialState_def)

text \<open>
  Claim C1, amended. Apply any finite list of messages of type \<^verbatim>\<open>event\<close> to the empty initial
  state. Only the most recent \<^verbatim>\<open>start\<close> event counts: the final \<open>active_agent\<close> is its
  agent when no \<^verbatim>\<open>end\<close> event of that agent follows it, and it is null when one does, or
  when there was no \<^verbatim>\<open>start\<close> event (\<open>expected_active\<close>); an earlier \<^verbatim>\<open>start\<close> is never
  restored. And from any state, a \<^verbatim>\<open>start\<close> event sets \<open>active_agent\<close>,
  \<open>active_workflow\<close> and \<open>started_at\<close> to its own agent, workflow and timestamp, whatever
  was active before.
\<close>

theorem active_agent_is_last_unended_start:
  fixes ms :: "'m ws_message list"
  assumes "event_typed ms"
  shows "active_agent (state (handleMessages ms initialState)) = expected_active (carried ms) \<and>
         (\<forall>(m :: 'm ws_message) e s. msg_type m = ''event'' \<longrightarrow> msg_event m = Some e \<longrightarrow> action e = ''start'' \<longrightarrow>
            active_agent (state (handleMessage m s)) = Some (agent e) \<and>
            active_workflow (state (handleMessage m s)) = workflow e \<and>
            started_at (state (handleMessage m s)) = Some (timestamp e))"
proof -
  from assms have "handleMessages ms initialState =
      handleMessages (map event_message (carried ms)) initialState"
    by (simp add: handleMessages_carried event_typed_iff)
  then have "active_agent (state (handleMessages ms initialState)) = expected_active (carried ms)"
    by (simp add: active_agent_after_events)
  moreover have "active_agent (state (handleMessage m s)) = Some (agent e) \<and>
         active_workflow (state (handleMessage m s)) = workflow e \<and>
         started_at (state (handleMessage m s)) = Some (timestamp e)"
    if "msg_type m = ''event''" "msg_event m = Some e" "action e = ''start''"
    for m :: "'m ws_message" and e s
    using that by (simp add: handleMessage_def updateStateFromEvent_def Let_def)
  ultimately show ?thesis by blast
qed

theorem active_agent_is_last_unended_start_witness:
  "event_typed (map event_message
      [sample_event ''architect'' ''start'', sample_event ''architect'' ''end'',
       sample_event ''coder'' ''start'', sample_event ''architect'' ''end'',
       sample_event ''tester'' ''error'']) \<and>
   active_agent (state (handleMessages (map event_message
      [sample_event ''architect'' ''start'', sample_event ''architect'' ''end'',
       sample_event ''coder'' ''start'', sample_event ''architect'' ''end'',
       sample_event ''tester'' ''error'']) initialState)) = Some ''coder'' \<and>
   active_workflow (state (handleMessage (event_message (sample_event ''pm'' ''start''))
      (handleMessage (event_message (sample_event ''coder'' ''start'')) initialState)))
     = Some ''design-feature''"
proof -
  let ?ms = "map event_message
      [sample_event ''architect'' ''start'', sample_event ''architect'' ''end'',
       sample_event ''coder'' ''start'', sample_event ''architect'' ''end'',
       sample_event ''tester'' ''error'']"
  have h: "event_typed ?ms" by (rule event_typed_event_messages)
  have "carried ?ms =
      [sample_event ''architect'' ''start'', sample_event ''architect'' ''end'',
       sample_event ''coder'' ''start'', sample_event ''architect'' ''end'',
       sample_event ''tester'' ''error'']"
    by (rule carried_event_messages)
  then have c: "expected_active (carried ?ms) = Some ''coder''"
    by (simp add: expected_active_def sample_event_def)
  have w: "workflow (sample_event ''pm'' ''start'') = Some ''design-feature''"
          "msg_type (event_message (sample_event ''pm'' ''start'')) = ''event''"
          "msg_event (event_message (sample_event ''pm'' ''start'')) =
             Some (sample_event ''pm'' ''start'')"
          "action (sample_event ''pm'' ''start'') = ''start''"
    by (simp_all add: sample_event_def event_message_def)
  from active_agent_is_last_unended_start [OF h] c w h show ?thesis by metis
qed

text \<open>
  Claim C2, as stated, fails: \<open>event_count\<close> is computed from the length of the log, and the
  log never holds more than 1000 events. After 1002 events applied to the empty initial state
  the counter is not 1002.
\<close>

theorem event_count_stalls_counterexample:
  "event_count (state (handleMessages
      (map event_message (replicate 1002 (sample_event ''coder'' ''start''))) initialState))
     \<noteq> 1002"
proof -
  have "event_count (state (handleMessages
      (map event_message (replicate 1002 (sample_event ''coder'' ''start''))) initialState))
      = 1001"
    using event_count_closed_form [OF event_typed_event_messages,
        of "replicate 1002 (sample_event ''coder'' ''start'')"]
    by (simp only: carried_event_messages) simp
  then show ?thesis by simp
qed

text \<open>
  Claim C2, amended. Over messages of type \<^verbatim>\<open>event\<close> applied to the empty initial state,
  \<open>event_count\<close> never decreases and never exceeds 1001; it grows with every event as long
  as at most 1000 events have been applied, and it is 1001 from the 1001st event on. It is
  the length of the bounded log that drives it, not the number of events ever applied.
\<close>

theorem event_count_follows_bounded_log:
  assumes "event_typed (ms @ [m])"
  shows "event_count (state (handleMessages ms initialState)) \<le> 1001 \<and>
         event_count (state (handleMessages ms initialState))
           \<le> event_count (state (handleMessages (ms @ [m]) initialState)) \<and>
         (msg_event m \<noteq> None \<and> length (carried (ms @ [m])) \<le> 1000 \<longrightarrow>
            event_count (state (handleMessages ms initialState))
              < event_count (state (handleMessages (ms @ [m]) initialState))) \<and>
         (1001 \<le> length (carried ms) \<longrightarrow>
            event_count (state (handleMessages ms initialState)) = 1001)"
proof -
  from assms have t: "event_typed ms" by (simp add: event_typed_append)
  note a = event_count_closed_form [OF t]
  note b = event_count_closed_form [OF assms]
  show ?thesis
    unfolding a b by (cases "msg_event m") (auto simp: carried_snoc)
qed

theorem event_count_follows_bounded_log_witness:
  "event_typed (map event_message (replicate 1001 (sample_event ''coder'' ''start'')) @
      [event_message (sample_event ''coder'' ''end'')]) \<and>
   1001 \<le> length (carried (map event_message (replicate 1001 (sample_event ''coder'' ''start'')))) \<and>
   event_count (state (handleMessages
      (map event_message (replicate 1001 (sample_event ''coder'' ''start''))) initialState)) = 1001 \<and>
   event_typed ([] @ [event_message (sample_event ''coder'' ''start'')]) \<and>
   msg_event (event_message (sample_event ''coder'' ''start'')) \<noteq> None \<and>
   length (carried ([] @ [event_message (sample_event ''coder'' ''start'')])) \<le> 1000 \<and>
   event_count (state (handleMessages [] (initialState :: unit monitor_store)))
     < event_count (state (handleMessages ([] @ [event_message (sample_event ''coder'' ''start'')])
         initialState))"
proof -
  let ?es = "replicate 1001 (sample_event ''coder'' ''start'')"
  let ?m = "event_message (sample_event ''coder'' ''end'')"
  let ?m1 = "event_message (sample_event ''coder'' ''start'')"
  have h: "event_typed (map event_message ?es @ [?m])"
    using event_typed_event_messages [of "?es @ [sample_event ''coder'' ''end'']"]
    by (simp only: map_append list.map)
  have l: "1001 \<le> length (carried (map event_message ?es))"
    by (simp only: carried_event_messages) simp
  have h1: "event_typed ([] @ [?m1])"
    by (simp add: event_typed_def event_message_def)
  have n: "msg_event ?m1 \<noteq> None" by (simp add: event_message_def)
  have l1: "length (carried ([] @ [?m1])) \<le> 1000"
    by (simp add: carried_def event_message_def)
  from event_count_follows_bounded_log [OF h] l
    event_count_follows_bounded_log [OF h1] n l1 h h1
  show ?thesis by blast
qed

text \<open>
  Claim C3 says that after an \<^verbatim>\<open>event\<close> message \<open>event_count\<close> is the length the log had
  before the append, plus one. The code reads \<^verbatim>\<open>store.events.length\<close> after the push and the
  truncation have reached the store, so the counter is the length of the log after them, plus
  one: 2 after the first event on the empty initial state, where the claim gives 1.
\<close>

theorem event_count_is_new_length_plus_one:
  "event_count (state (handleMessage (event_message e) s)) =
     int (min 1000 (length (events s) + 1)) + 1 \<and>
   event_count (state (handleMessage (event_message e) initialState)) = 2"
  by (simp add: event_count_handle_event events_handle_event length_slice_last
      initialState_def)

text \<open>
  Claim C4. On an empty log, messages of type \<^verbatim>\<open>event\<close> leave the last 1000 of the events
  they carry, in the order of arrival; after 1001 events the log has 1000 entries and starts
  with the event that came second. In any state, one event is appended at the end and the
  front is dropped when the length has passed 1000.
\<close>

theorem log_keeps_last_1000_in_order:
  fixes s :: "'m monitor_store"
  assumes "events s = []" and "event_typed ms"
  shows "events (handleMessages ms s) = slice_last 1000 (carried ms) \<and>
         (length (carried ms) = 1001 \<longrightarrow>
            length (events (handleMessages ms s)) = 1000 \<and>
            hd (events (handleMessages ms s)) = carried ms ! 1) \<and>
         (\<forall>(e :: 'm event) s'. events (handleMessage (event_message e) s') =
            (if length (events s' @ [e]) > 1000
             then drop (length (events s' @ [e]) - 1000) (events s' @ [e])
             else events s' @ [e]))"
proof -
  from assms(2) have eq: "handleMessages ms s = handleMessages (map event_message (carried ms)) s"
    by (simp add: handleMessages_carried event_typed_iff)
  have log: "events (handleMessages ms s) = slice_last 1000 (carried ms)"
  proof (cases "carried ms = []")
    case True
    with eq assms(1) show ?thesis by (simp add: slice_last_def)
  next
    case False
    with eq assms(1) show ?thesis by (simp add: events_after_events)
  qed
  have "length (events (handleMessages ms s)) = 1000 \<and>
        hd (events (handleMessages ms s)) = carried ms ! 1"
    if "length (carried ms) = 1001"
    using that by (simp add: log slice_last_def hd_drop_conv_nth)
  moreover have "events (handleMessage (event_message e) s') =
            (if length (events s' @ [e]) > 1000
             then drop (length (events s' @ [e]) - 1000) (events s' @ [e])
             else events s' @ [e])" for e :: "'m event" and s'
    by (simp add: events_handle_event slice_last_def)
  ultimately show ?thesis using log by blast
qed

theorem log_keeps_last_1000_in_order_witness:
  "events (initialState :: unit monitor_store) = [] \<and>
   event_typed (map event_message
      (sample_event ''architect'' ''start'' # replicate 1000 (sample_event ''coder'' ''start''))) \<and>
   length (carried (map event_message
      (sample_event ''architect'' ''start'' # replicate 1000 (sample_event ''coder'' ''start''))))
     = 1001 \<and>
   length (events (handleMessages (map event_message
      (sample_event ''architect'' ''start'' # replicate 1000 (sample_event ''coder'' ''start'')))
      initialState)) = 1000 \<and>
   hd (events (handleMessages (map event_message
      (sample_event ''architect'' ''start'' # replicate 1000 (sample_event ''coder'' ''start'')))
      initialState)) = sample_event ''coder'' ''start''"
proof -
  let ?es = "sample_event ''architect'' ''start'' # replicate 1000 (sample_event ''coder'' ''start'')"
  have e: "events (initialState :: unit monitor_store) = []" by (simp add: initialState_def)
  have h: "event_typed (map event_message ?es)" by (rule event_typed_event_messages)
  have c: "carried (map event_message ?es) = ?es" by (rule carried_event_messages)
  have l: "length (carried (map event_message ?es)) = 1001" unfolding c by simp
  have n: "carried (map event_message ?es) ! 1 = sample_event ''coder'' ''start''"
    unfolding c by simp
  from log_keeps_last_1000_in_order [OF e h] l n e h show ?thesis by metis
qed

text \<open>
  Claim C6. An \<^verbatim>\<open>end\<close> event whose agent is not the active one leaves \<open>active_agent\<close>,
  \<open>active_workflow\<close> and \<open>started_at\<close> as they are; the event is still appended to the log
  (it is the last entry) and \<open>event_count\<close> is still assigned from the log.
\<close>

theorem end_of_other_agent_keeps_session:
  assumes "msg_type m = ''event''" and "msg_event m = Some e"
    and "action e = ''end''" and "active_agent (state s) \<noteq> Some (agent e)"
  shows "active_agent (state (handleMessage m s)) = active_agent (state s) \<and>
         active_workflow (state (handleMessage m s)) = active_workflow (state s) \<and>
         started_at (state (handleMessage m s)) = started_at (state s) \<and>
         events (handleMessage m s) = slice_last 1000 (events s @ [e]) \<and>
         last (events (handleMessage m s)) = e \<and>
         event_count (state (handleMessage m s)) = int (length (events (handleMessage m s))) + 1"
proof -
  have ev: "events (handleMessage m s) = slice_last 1000 (events s @ [e])"
    using assms(1,2)
    by (simp add: handleMessage_def updateStateFromEvent_def Let_def slice_last_def)
  have "last (slice_last 1000 (events s @ [e])) = e"
    by (simp add: slice_last_def)
  with ev have la: "last (events (handleMessage m s)) = e" by simp
  have st: "active_agent (state (handleMessage m s)) = active_agent (state s) \<and>
         active_workflow (state (handleMessage m s)) = active_workflow (state s) \<and>
         started_at (state (handleMessage m s)) = started_at (state s)"
    using assms by (simp add: handleMessage_def updateStateFromEvent_def Let_def)
  have "event_count (state (handleMessage m s)) = int (length (events (handleMessage m s))) + 1"
    using assms(1,2) by (simp add: handleMessage_def updateStateFromEvent_def Let_def)
  with ev la st show ?thesis by simp
qed

theorem end_of_other_agent_keeps_session_witness:
  "msg_type (event_message (sample_event ''coder'' ''end'')) = ''event'' \<and>
   msg_event (event_message (sample_event ''coder'' ''end'')) = Some (sample_event ''coder'' ''end'') \<and>
   action (sample_event ''coder'' ''end'') = ''end'' \<and>
   active_agent (state (handleMessage (event_message (sample_event ''architect'' ''start''))
      initialState)) \<noteq> Some (agent (sample_event ''coder'' ''end'')) \<and>
   active_agent (state (handleMessage (event_message (sample_event ''coder'' ''end''))
      (handleMessage (event_message (sample_event ''architect'' ''start'')) initialState)))
     = Some ''architect'' \<and>
   events (handleMessage (event_message (sample_event ''coder'' ''end''))
      (handleMessage (event_message (sample_event ''architect'' ''start'')) initialState))
     = [sample_event ''architect'' ''start'', sample_event ''coder'' ''end''] \<and>
   event_count (state (handleMessage (event_message (sample_event ''coder'' ''end''))
      (handleMessage (event_message (sample_event ''architect'' ''start'')) initialState))) = 3"
proof -
  let ?m = "event_message (sample_event ''coder'' ''end'')"
  let ?s = "handleMessage (event_message (sample_event ''architect'' ''start''))
      (initialState :: unit monitor_store)"
  have a: "msg_type ?m = ''event''" "msg_event ?m = Some (sample_event ''coder'' ''end'')"
    "action (sample_event ''coder'' ''end'') = ''end''"
    by (simp_all add: event_message_def sample_event_def)
  have s: "active_agent (state ?s) = Some ''architect''"
    "events ?s = [sample_event ''architect'' ''start'']"
    by (simp_all add: active_agent_handle_event events_handle_event slice_last_def
        initialState_def sample_event_def)
  have b: "active_agent (state ?s) \<noteq> Some (agent (sample_event ''coder'' ''end''))"
    unfolding s by (simp add: sample_event_def)
  from end_of_other_agent_keeps_session [OF a b] a b s show ?thesis
    by (simp add: slice_last_def)
qed

text \<open>
  Claim C9. An \<^verbatim>\<open>init\<close> message installs its events as the log, whatever their number: a
  snapshot of 1001 events leaves a log of 1001 entries. Only the \<^verbatim>\<open>event\<close> branch truncates:
  the next event brings the log back to 1000. So a length of at most 1000 is not preserved by
  every message.
\<close>

theorem init_snapshot_is_not_truncated:
  "events (handleMessage (init_message es) s) = es \<and>
   length (events (handleMessage (init_message (replicate 1001 e)) initialState)) = 1001 \<and>
   length (events (handleMessage (event_message e)
      (handleMessage (init_message (replicate 1001 e)) initialState))) = 1000"
  by (simp add: handleMessage_def init_message_def event_message_def
      updateStateFromEvent_def Let_def slice_last_def)

text \<open>
  Claim C10. A message of type \<^verbatim>\<open>event\<close> without an event leaves the whole store as it is:
  the log, the three session fields and \<open>event_count\<close>. The handler is a total function of
  the store and has no failing branch.
\<close>

theorem event_message_without_event_is_noop:
  assumes "msg_type m = ''event''" and "msg_event m = None"
  shows "handleMessage m s = s"
  using assms by (simp add: handleMessage_def)

theorem event_message_without_event_is_noop_witness:
  "msg_type \<lparr>msg_type = ''event'', msg_events = None, msg_state = None,
      msg_event = (None :: unit event option), msg_message = None\<rparr> = ''event'' \<and>
   msg_event \<lparr>msg_type = ''event'', msg_events = None, msg_state = None,
      msg_event = (None :: unit event option), msg_message = None\<rparr> = None \<and>
   handleMessage \<lparr>msg_type = ''event'', msg_events = None, msg_state = None,
      msg_event = None, msg_message = None\<rparr>
     (handleMessage (event_message (sample_event ''architect'' ''start'')) initialState)
   = handleMessage (event_message (sample_event ''architect'' ''start'')) initialState"
proof -
  let ?m = "\<lparr>msg_type = ''event'', msg_events = None, msg_state = None,
      msg_event = (None :: unit event option), msg_message = None\<rparr>"
  have a: "msg_type ?m = ''event''" and b: "msg_event ?m = None" by simp_all
  from event_message_without_event_is_noop [OF a b] a b show ?thesis by simp
qed

section \<open>Properties of the reset\<close>

lemma resetMonitor_aliased:
  "store_ref g = initialState_ref g \<Longrightarrow> store_ref g < length (heap g) \<Longrightarrow>
   store_of (resetMonitor g) = store_of g"
  by (simp add: resetMonitor_def setStore_object_def mergeStoreNode_def store_of_def)

text \<open>
  Claim C5 says that \<^verbatim>\<open>resetMonitor()\<close> brings every reachable store back to the empty initial
  state. It does not: the object that \<^verbatim>\<open>initialState\<close> names is the object under the store, so
  \<^verbatim>\<open>setStore(initialState)\<close> merges the store into itself. After one event, the reset leaves
  the event in the log and the counter at 2; only the duration text goes back to \<^verbatim>\<open>"-"\<close>.
\<close>

theorem reset_keeps_the_log:
  "store_of (resetMonitor (on_message (event_message e) module_load)) =
     store_of (on_message (event_message e) module_load) \<and>
   events (store_of (resetMonitor (on_message (event_message e) module_load))) = [e] \<and>
   event_count (state (store_of (resetMonitor (on_message (event_message e) module_load)))) = 2 \<and>
   duration (resetMonitor (on_message (event_message e) module_load)) = ''-''"
  by (simp add: resetMonitor_def setStore_object_def mergeStoreNode_def on_message_def
      setStore_produce_def module_load_def createStore_def store_of_def
      events_handle_event event_count_handle_event slice_last_def initialState_def)

section \<open>Properties of the duration ticker\<close>

declare show_nat.simps [simp del]

lemma js_rem_nonneg: "0 \<le> a \<Longrightarrow> 0 < b \<Longrightarrow> js_rem a b = a mod b"
  by (cases "a = 0") (simp_all add: js_rem_def)

lemma formatDuration_hours:
  assumes "3600 \<le> diff div 1000"
  shows "formatDuration diff =
           show_int (diff div 1000 div 60 div 60) @ ''h '' @
           show_int (diff div 1000 div 60 mod 60) @ ''m''"
proof -
  from assms have m: "60 \<le> diff div 1000 div 60" by simp
  then have "1 \<le> diff div 1000 div 60 div 60" by simp
  with m show ?thesis
    by (simp add: formatDuration_def Let_def js_rem_nonneg)
qed

lemma formatDuration_minutes:
  assumes "60 \<le> diff div 1000" and "diff div 1000 < 3600"
  shows "formatDuration diff =
           show_int (diff div 1000 div 60) @ ''m '' @ show_int (diff div 1000 mod 60) @ ''s''"
proof -
  from assms have m: "1 \<le> diff div 1000 div 60" "diff div 1000 div 60 < 60" by simp_all
  then have "diff div 1000 div 60 div 60 = 0" by simp
  with m assms show ?thesis
    by (simp add: formatDuration_def Let_def js_rem_nonneg)
qed

lemma formatDuration_seconds:
  assumes "diff div 1000 < 60"
  shows "formatDuration diff = show_int (diff div 1000) @ ''s''"
proof -
  from assms have m: "diff div 1000 div 60 \<le> 0" by simp
  then have "diff div 1000 div 60 div 60 \<le> 0" by simp
  with m show ?thesis
    by (simp add: formatDuration_def Let_def)
qed

text \<open>
  Claim C8. A tick sets the duration text from \<open>started_at\<close>: \<^verbatim>\<open>"-"\<close> when it is null; for a
  start time that parses, \<^verbatim>\<open>"1m 30s"\<close> at 90 elapsed seconds and \<^verbatim>\<open>"1h 1m"\<close> at 3661; in
  general hours and minutes from one hour on, minutes and seconds from one minute up to one
  hour, and seconds alone below one minute.
\<close>

theorem duration_text_format:
  assumes "getTime ts = Some t0" and "ts \<noteq> []"
  shows "durationText getTime now None = ''-'' \<and>
         duration (tick getTime now g) = durationText getTime now (started_at (state (store_of g))) \<and>
         ((now - t0) div 1000 = 90 \<longrightarrow> durationText getTime now (Some ts) = ''1m 30s'') \<and>
         ((now - t0) div 1000 = 3661 \<longrightarrow> durationText getTime now (Some ts) = ''1h 1m'') \<and>
         (3600 \<le> (now - t0) div 1000 \<longrightarrow>
            durationText getTime now (Some ts) =
              show_int ((now - t0) div 1000 div 60 div 60) @ ''h '' @
              show_int ((now - t0) div 1000 div 60 mod 60) @ ''m'') \<and>
         (60 \<le> (now - t0) div 1000 \<and> (now - t0) div 1000 < 3600 \<longrightarrow>
            durationText getTime now (Some ts) =
              show_int ((now - t0) div 1000 div 60) @ ''m '' @
              show_int ((now - t0) div 1000 mod 60) @ ''s'') \<and>
         ((now - t0) div 1000 < 60 \<longrightarrow>
            durationText getTime now (Some ts) = show_int ((now - t0) div 1000) @ ''s'')"
proof -
  have d: "durationText getTime now (Some ts) = formatDuration (now - t0)"
    using assms by (simp add: durationText_def)
  have a: "durationText getTime now None = ''-''" by (simp add: durationText_def)
  have t: "duration (tick getTime now g) =
      durationText getTime now (started_at (state (store_of g)))"
    by (simp add: tick_def)
  have b: "formatDuration (now - t0) = ''1m 30s''" if "(now - t0) div 1000 = 90"
    using formatDuration_minutes [of "now - t0"] that
    by (simp add: show_int_def show_nat.simps digit_char_def)
  have c: "formatDuration (now - t0) = ''1h 1m''" if "(now - t0) div 1000 = 3661"
    using formatDuration_hours [of "now - t0"] that
    by (simp add: show_int_def show_nat.simps digit_char_def)
  show ?thesis
    unfolding d using a t b c
      formatDuration_hours [of "now - t0"] formatDuration_minutes [of "now - t0"]
      formatDuration_seconds [of "now - t0"]
    by blast
qed

theorem duration_text_format_witness:
  "(\<lambda>_. Some (0::int)) ''2026-01-29T10:30:00Z'' = Some 0 \<and>
   ''2026-01-29T10:30:00Z'' \<noteq> [] \<and>
   (90500 - 0) div 1000 = (90::int) \<and>
   durationText (\<lambda>_. Some 0) 90500 (Some ''2026-01-29T10:30:00Z'') = ''1m 30s'' \<and>
   (3661000 - 0) div 1000 = (3661::int) \<and>
   durationText (\<lambda>_. Some 0) 3661000 (Some ''2026-01-29T10:30:00Z'') = ''1h 1m'' \<and>
   (5999 - 0) div 1000 < (60::int) \<and>
   durationText (\<lambda>_. Some 0) 5999 (Some ''2026-01-29T10:30:00Z'') = ''5s''"
proof -
  let ?g = "\<lambda>_ :: string. Some (0::int)"
  let ?ts = "''2026-01-29T10:30:00Z''"
  have h1: "?g ?ts = Some 0" and h2: "?ts \<noteq> []" by simp_all
  have e1: "(90500 - 0) div 1000 = (90::int)"
    and e2: "(3661000 - 0) div 1000 = (3661::int)"
    and e3: "(5999 - 0) div 1000 < (60::int)" by simp_all
  have s: "show_int ((5999 - 0) div 1000) @ ''s'' = ''5s''"
    by (simp add: show_int_def show_nat.simps digit_char_def)
  from duration_text_format [OF h1 h2, of 90500] e1
  have r1: "durationText ?g 90500 (Some ?ts) = ''1m 30s''" by blast
  from duration_text_format [OF h1 h2, of 3661000] e2
  have r2: "durationText ?g 3661000 (Some ?ts) = ''1h 1m''" by blast
  from duration_text_format [OF h1 h2, of 5999] e3
  have "durationText ?g 5999 (Some ?ts) = show_int ((5999 - 0) div 1000) @ ''s''" by blast
  with s have r3: "durationText ?g 5999 (Some ?ts) = ''5s''" by simp
  from h1 h2 e1 e2 e3 r1 r2 r3 show ?thesis by blast
qed

section \<open>Properties of the transport\<close>

lemma timer_held_init: "timer_held transport_init"
  by (simp add: timer_held_def transport_init_def)

lemma timer_held_connect: "timer_held t \<Longrightarrow> timer_held (connect t)"
  by (simp add: timer_held_def connect_def Let_def)

lemma removeAll_held:
  "\<forall>tid \<in> set ts. tid \<noteq> 0 \<and> r = Some tid \<Longrightarrow> r = Some x \<Longrightarrow> removeAll x ts = []"
  by (induction ts) auto

lemma pending_disconnect:
  assumes "timer_held t"
  shows "pending_timers (disconnect t) = []"
proof (cases "reconnectTimeout t")
  case None
  with assms have "pending_timers t = []"
    by (cases "pending_timers t") (auto simp: timer_held_def)
  with None show ?thesis
    by (simp add: disconnect_def socket_close_def Let_def split: option.splits)
next
  case (Some x)
  with assms have "removeAll x (pending_timers t) = []"
    by (intro removeAll_held [where r = "reconnectTimeout t"]) (auto simp: timer_held_def)
  moreover from assms Some have "x = 0 \<Longrightarrow> pending_timers t = []"
    by (cases "pending_timers t") (auto simp: timer_held_def)
  ultimately show ?thesis using Some
    by (simp add: disconnect_def clearTimeout_def socket_close_def Let_def split: option.splits)
qed

lemma disconnect_fields:
  "isManualClose (disconnect t)"
  "connect_calls (disconnect t) = connect_calls t"
  "next_timer_id (disconnect t) = next_timer_id t"
  "pending_timers t = [] \<Longrightarrow> pending_timers (disconnect t) = []"
  by (simp_all add: disconnect_def clearTimeout_def socket_close_def Let_def
      split: option.splits)

lemma timer_held_disconnect:
  assumes "timer_held t"
  shows "timer_held (disconnect t)"
proof -
  from assms have "0 < next_timer_id (disconnect t)"
    by (simp add: disconnect_fields timer_held_def)
  with pending_disconnect [OF assms] show ?thesis
    by (simp add: timer_held_def)
qed

lemma scheduleReconnect_fields:
  "reconnectTimeout (scheduleReconnect t) = Some (next_timer_id t)"
  "next_timer_id (scheduleReconnect t) = next_timer_id t + 1"
  "pending_timers (scheduleReconnect t) =
     (case reconnectTimeout t of
        Some tid \<Rightarrow> if tid \<noteq> 0 then removeAll tid (pending_timers t) else pending_timers t
      | None \<Rightarrow> pending_timers t) @ [next_timer_id t]"
  by (simp_all add: scheduleReconnect_def clearTimeout_def Let_def split: option.splits)

lemma timer_held_scheduleReconnect:
  assumes "timer_held t"
  shows "timer_held (scheduleReconnect t)"
proof -
  have "(case reconnectTimeout t of
        Some tid \<Rightarrow> if tid \<noteq> 0 then removeAll tid (pending_timers t) else pending_timers t
      | None \<Rightarrow> pending_timers t) = []"
  proof (cases "reconnectTimeout t")
    case None
    with assms show ?thesis
      by (cases "pending_timers t") (auto simp: timer_held_def)
  next
    case (Some x)
    show ?thesis
    proof (cases "x = 0")
      case True
      with assms Some show ?thesis
        by (cases "pending_timers t") (auto simp: timer_held_def)
    next
      case False
      from assms Some have "removeAll x (pending_timers t) = []"
        by (intro removeAll_held [where r = "reconnectTimeout t"]) (auto simp: timer_held_def)
      with Some False show ?thesis by simp
    qed
  qed
  then have "pending_timers (scheduleReconnect t) = [next_timer_id t]"
    by (simp only: scheduleReconnect_fields append_Nil)
  moreover from assms have "0 < next_timer_id t" by (simp add: timer_held_def)
  ultimately show ?thesis
    by (simp add: timer_held_def scheduleReconnect_fields)
qed

lemma timer_held_step: "timer_held t \<Longrightarrow> step a t = Some t' \<Longrightarrow> timer_held t'"
proof (cases a)
  case Connect
  assume "timer_held t" "step a t = Some t'"
  with Connect show ?thesis using timer_held_connect by auto
next
  case Disconnect
  assume "timer_held t" "step a t = Some t'"
  with Disconnect show ?thesis using timer_held_disconnect by auto
next
  case (SocketOpened i)
  assume "timer_held t" "step a t = Some t'"
  with SocketOpened show ?thesis
    by (auto simp: timer_held_def onopen_def notifyConnection_def split: if_splits)
next
  case (SocketClosed i)
  assume h: "timer_held t" "step a t = Some t'"
  let ?u = "notifyConnection False (t\<lparr>sockets := (sockets t)[i := CLOSED]\<rparr>)"
  from h(1) have u: "timer_held ?u" by (simp add: timer_held_def notifyConnection_def)
  from h(2) SocketClosed have "t' = (if \<not> isManualClose ?u then scheduleReconnect ?u else ?u)"
    by (auto simp: onclose_def Let_def split: if_splits)
  with u show ?thesis by (simp add: timer_held_scheduleReconnect)
next
  case (SocketErrored i)
  assume "timer_held t" "step a t = Some t'"
  with SocketErrored show ?thesis by (auto split: if_splits)
next
  case (FrameReceived i)
  assume "timer_held t" "step a t = Some t'"
  with FrameReceived show ?thesis by (auto split: if_splits)
next
  case (TimerFired tid)
  assume h: "timer_held t" "step a t = Some t'"
  let ?u = "t\<lparr>pending_timers := removeAll tid (pending_timers t)\<rparr>"
  from h(1) have "timer_held ?u" by (auto simp: timer_held_def)
  then have "timer_held (connect ?u)" by (rule timer_held_connect)
  with h(2) TimerFired show ?thesis by (auto split: if_splits)
qed

lemma timer_held_run: "timer_held t \<Longrightarrow> run as t = Some t' \<Longrightarrow> timer_held t'"
proof (induction as arbitrary: t)
  case Nil
  then show ?case by simp
next
  case (Cons a as)
  then show ?case by (auto split: option.splits dest: timer_held_step)
qed

lemma suppressed_step:
  assumes "suppressed t" and "a \<noteq> Connect" and "step a t = Some t'"
  shows "suppressed t' \<and> connect_calls t' = connect_calls t \<and> (\<forall>tid. a \<noteq> TimerFired tid)"
proof (cases a)
  case Connect
  with assms(2) show ?thesis by simp
next
  case Disconnect
  with assms(3) have "t' = disconnect t" by simp
  with assms(1) Disconnect show ?thesis
    by (simp add: suppressed_def disconnect_fields)
next
  case (SocketOpened i)
  with assms(1,3) show ?thesis
    by (auto simp: suppressed_def onopen_def notifyConnection_def split: if_splits)
next
  case (SocketClosed i)
  with assms(1,3) show ?thesis
    by (auto simp: suppressed_def onclose_def notifyConnection_def Let_def split: if_splits)
next
  case (SocketErrored i)
  with assms(1,3) show ?thesis by (auto split: if_splits)
next
  case (FrameReceived i)
  with assms(1,3) show ?thesis by (auto split: if_splits)
next
  case (TimerFired tid)
  with assms(1,3) show ?thesis by (simp add: suppressed_def)
qed

lemma suppressed_run:
  assumes "suppressed t" and "Connect \<notin> set as" and "run as t = Some t'"
  shows "suppressed t' \<and> connect_calls t' = connect_calls t \<and> (\<forall>tid. TimerFired tid \<notin> set as)"
  using assms
proof (induction as arbitrary: t)
  case Nil
  then show ?case by simp
next
  case (Cons a as)
  from Cons.prems obtain u where u: "step a t = Some u" and r: "run as u = Some t'"
    by (auto split: option.splits)
  from Cons.prems have na: "a \<noteq> Connect" and nas: "Connect \<notin> set as" by auto
  from suppressed_step [OF Cons.prems(1) na u]
  have su: "suppressed u" and cu: "connect_calls u = connect_calls t"
    and nt: "\<forall>tid. a \<noteq> TimerFired tid" by auto
  from Cons.IH [OF su nas r] cu nt show ?case by auto
qed

text \<open>
  Claim C7. Take any state \<open>t\<close> the transport reaches from its initial state, with or without
  a reconnect timer pending. After \<^verbatim>\<open>disconnect()\<close> the manual-close flag is set and no timer is
  pending. In every execution that follows without a call of \<^verbatim>\<open>connect()\<close> from outside, no
  timer fires, so the cancelled reconnect never enters \<^verbatim>\<open>connect()\<close>; close events of sockets
  schedule no timer; and the count of entries into \<^verbatim>\<open>connect()\<close> stays what it was.
\<close>

theorem disconnect_cancels_pending_reconnect:
  assumes "run pre transport_init = Some t"
    and "Connect \<notin> set post"
    and "run post (disconnect t) = Some t'"
  shows "isManualClose (disconnect t) \<and> pending_timers (disconnect t) = [] \<and>
         (\<forall>tid. TimerFired tid \<notin> set post) \<and>
         isManualClose t' \<and> pending_timers t' = [] \<and>
         connect_calls t' = connect_calls t \<and>
         (\<forall>tid. step (TimerFired tid) t' = None)"
proof -
  from timer_held_run [OF timer_held_init assms(1)] have h: "timer_held t" .
  have m: "isManualClose (disconnect t)" by (rule disconnect_fields)
  have c: "connect_calls (disconnect t) = connect_calls t" by (rule disconnect_fields)
  from pending_disconnect [OF h] m have s: "suppressed (disconnect t)"
    by (simp add: suppressed_def)
  from suppressed_run [OF s assms(2,3)] s c show ?thesis
    by (simp add: suppressed_def)
qed

theorem disconnect_cancels_pending_reconnect_witness:
  "run [Connect, Connect, SocketClosed 0] transport_init =
     Some \<lparr>ws = Some 1, reconnectTimeout = Some 1, isManualClose = False,
           sockets = [CLOSED, CONNECTING], pending_timers = [1], next_timer_id = 2,
           connect_calls = 2, connection_events = [False]\<rparr> \<and>
   Connect \<notin> set [SocketClosed 1, SocketErrored 0] \<and>
   run [SocketClosed 1, SocketErrored 0]
     (disconnect \<lparr>ws = Some 1, reconnectTimeout = Some 1, isManualClose = False,
           sockets = [CLOSED, CONNECTING], pending_timers = [1], next_timer_id = 2,
           connect_calls = 2, connection_events = [False]\<rparr>) =
     Some \<lparr>ws = None, reconnectTimeout = None, isManualClose = True,
           sockets = [CLOSED, CLOSED], pending_timers = [], next_timer_id = 2,
           connect_calls = 2, connection_events = [False, False]\<rparr> \<and>
   pending_timers (disconnect \<lparr>ws = Some 1, reconnectTimeout = Some 1, isManualClose = False,
           sockets = [CLOSED, CONNECTING], pending_timers = [1], next_timer_id = 2,
           connect_calls = 2, connection_events = [False]\<rparr>) = [] \<and>
   step (TimerFired 1) \<lparr>ws = None, reconnectTimeout = None, isManualClose = True,
           sockets = [CLOSED, CLOSED], pending_timers = [], next_timer_id = 2,
           connect_calls = 2, connection_events = [False, False]\<rparr> = None"
proof -
  let ?t = "\<lparr>ws = Some 1, reconnectTimeout = Some 1, isManualClose = False,
           sockets = [CLOSED, CONNECTING], pending_timers = [1], next_timer_id = 2,
           connect_calls = 2, connection_events = [False]\<rparr>"
  let ?t' = "\<lparr>ws = None, reconnectTimeout = None, isManualClose = True,
           sockets = [CLOSED, CLOSED], pending_timers = [], next_timer_id = 2,
           connect_calls = 2, connection_events = [False, False]\<rparr>"
  have a: "run [Connect, Connect, SocketClosed 0] transport_init = Some ?t"
    by (simp add: transport_init_def connect_def readyState_def onclose_def
        notifyConnection_def scheduleReconnect_def clearTimeout_def Let_def)
  have b: "Connect \<notin> set [SocketClosed 1, SocketErrored 0]" by simp
  have c: "run [SocketClosed 1, SocketErrored 0] (disconnect ?t) = Some ?t'"
    by (simp add: disconnect_def socket_close_def connect_def readyState_def onclose_def
        notifyConnection_def scheduleReconnect_def clearTimeout_def Let_def)
  from disconnect_cancels_pending_reconnect [OF a b c] a b c show ?thesis by simp
qed

end
